theory Spec2Isabelle
  imports Main "HOL-Library.Sublist"
begin

section \<open>The replica execution core of rDSN: data model\<close>

text \<open>
  A shallow embedding of \<^verbatim>\<open>src/replica/replica.cpp\<close>. Decrees and ballots are
  \<^verbatim>\<open>int64_t\<close> in the source; they are counters that start at 0 and grow by one, and
  signed overflow is undefined in C++, so they are modelled as \<open>int\<close> and the model
  speaks about the runs in which no counter leaves the 64-bit range. Fatal assertions
  (\<^verbatim>\<open>dassert\<close>, \<^verbatim>\<open>dassert_replica\<close>, \<^verbatim>\<open>dcheck_eq\<close>) abort the process: a
  function that can hit one returns \<open>fatal + 'a\<close>. Logging (\<^verbatim>\<open>dinfo\<close>,
  \<^verbatim>\<open>derror_replica\<close>, \<^verbatim>\<open>ddebug\<close>), the latency tracer macros and clock readings
  are not modelled.
\<close>

type_synonym decree = int
type_synonym ballot = int
type_synonym task_code = nat

datatype partition_status =
    PS_INVALID
  | PS_INACTIVE
  | PS_ERROR
  | PS_PRIMARY
  | PS_SECONDARY
  | PS_POTENTIAL_SECONDARY
  | PS_PARTITION_SPLIT

datatype learner_status =
    LearningNotStarted
  | LearningWithPrepare
  | LearningWithPrepareTransient
  | LearningSucceeded
  | LearningFailed

datatype disk_migration_status = IDLE | MOVING | MOVED | CLOSED

text \<open>The enumerators' values, in the order the spec lists them; the source compares
  them with \<^verbatim>\<open>>=\<close>.\<close>

fun disk_migration_status_value :: "disk_migration_status \<Rightarrow> nat" where
  "disk_migration_status_value IDLE = 0"
| "disk_migration_status_value MOVING = 1"
| "disk_migration_status_value MOVED = 2"
| "disk_migration_status_value CLOSED = 3"

datatype manual_compaction_status = kIdle | kQueuing | kRunning | kFinished

datatype error_code =
    ERR_OK
  | ERR_ACL_DENY
  | ERR_INVALID_STATE
  | ERR_BUSY
  | ERR_SPLITTING
  | ERR_OBJECT_NOT_FOUND
  | ERR_OTHER string

text \<open>Every fatal assertion of the modelled functions, and the dereference of a null
  \<^verbatim>\<open>_app\<close> or \<^verbatim>\<open>_disk_migrator\<close> (a crash).\<close>

datatype fatal =
    AssertMaxPreparedGeCommitted
  | AssertCommittedGeDurable
  | AssertAppCommitContiguous
  | AssertPrivateLogNotNull
  | AssertInvalidPartitionStatus
  | AssertAppNotNull
  | AssertCloseInvalidState
  | AssertPrimaryContextNotCleared
  | AssertSecondaryContextNotCleared
  | AssertPotentialSecondaryContextNotCleared
  | AssertSplitContextNotCleared
  | NullPointerDereference

record message_ex =
  rpc_code :: task_code
  is_backup_request :: bool
  partition_hash :: nat

record mutation_update =
  code :: task_code
  start_time_ns :: nat

text \<open>A mutation: the header fields the core reads, the updates, the client requests
  and the result of \<^verbatim>\<open>is_logged()\<close>.\<close>

record mutation =
  ballot :: ballot
  decree :: decree
  log_offset :: int
  updates :: "mutation_update list"
  client_requests :: "message_ex list"
  is_logged :: bool

text \<open>
  Modelled from the spec: the class \<^verbatim>\<open>prepare_list\<close> is not among the sources. The
  spec (section 3) describes it as an ordered, bounded mapping from decree to mutation
  above \<open>last_committed\<close>, with \<^verbatim>\<open>max_decree()\<close>; a bounded mapping is a finite
  association list here, and \<^verbatim>\<open>get_mutation_by_decree\<close> is the lookup (a null
  pointer is \<open>None\<close>).
\<close>

record prepare_list =
  pl_last_committed_decree :: decree
  pl_max_decree :: decree
  pl_mutations :: "(decree \<times> mutation) list"

definition get_mutation_by_decree :: "prepare_list \<Rightarrow> decree \<Rightarrow> mutation option" where
  "get_mutation_by_decree pl d = map_of (pl_mutations pl) d"

text \<open>The storage engine behind \<^verbatim>\<open>_app\<close>: what its accessors return.\<close>

record replication_app_base =
  app_last_committed_decree :: decree
  app_last_flushed_decree :: decree
  app_last_durable_decree :: decree
  compact_state :: string
  data_version :: nat

datatype mutation_log = Mutation_log

record replica_disk_migrator =
  migration_status :: disk_migration_status

record replica =
  status :: partition_status
  app :: "replication_app_base option"
  prepare_lst :: prepare_list
  private_log :: "mutation_log option"
  last_prepare_decree_on_new_primary :: decree
  checkpoint_is_running :: bool
  learning_status :: learner_status
  is_caught_up :: bool
  disk_migrator :: "replica_disk_migrator option"
  checkpoint_timer :: bool
  counter_backup_request_qps :: nat
  counters_table_level_latency :: "task_code \<Rightarrow> bool"

text \<open>The calls a function makes on its collaborators, in order.\<close>

datatype call =
    Response_client bool message_ex partition_status error_code
  | App_on_request message_ex
  | App_apply_mutation mutation
  | Handle_local_failure error_code
  | Init_prepare mutation
  | Latency_set task_code
  | Checkpoint_timer_cancel
  | App_cancel_background_work
  | Cancel_outstanding_tasks
  | Private_log_close
  | App_close
  | Counter_private_log_size_clear
  | Reset_duplication_mgr
  | Reset_backup_mgr
  | Reset_bulk_loader
  | Reset_split_mgr

text \<open>
  The collaborators whose code is not in \<^verbatim>\<open>replica.cpp\<close>, as parameters: the
  access controller, the macro \<^verbatim>\<open>CHECK_REQUEST_IF_SPLITTING\<close> (\<open>Some\<close> when it has replied
  and returned), the throttler, the storage engine's \<^verbatim>\<open>on_request\<close> and
  \<^verbatim>\<open>apply_mutation\<close>, \<^verbatim>\<open>handle_local_failure\<close>, the write queue's
  \<^verbatim>\<open>check_possible_work\<close>, \<^verbatim>\<open>init_prepare\<close>, and what \<^verbatim>\<open>close\<close> calls on the
  role contexts and on the disk migrator.
\<close>

record collaborators =
  allowed :: "message_ex \<Rightarrow> bool"
  check_request_if_splitting :: "message_ex \<Rightarrow> replica \<Rightarrow> (replica \<times> call list) option"
  throttle_read_request :: "message_ex \<Rightarrow> replica \<Rightarrow> bool \<times> replica"
  on_request :: "message_ex \<Rightarrow> replication_app_base \<Rightarrow> replication_app_base"
  apply_mutation :: "mutation \<Rightarrow> replication_app_base \<Rightarrow> error_code \<times> replication_app_base"
  handle_local_failure :: "error_code \<Rightarrow> replica \<Rightarrow> replica"
  check_possible_work :: "int \<Rightarrow> replica \<Rightarrow> mutation option \<times> replica"
  init_prepare :: "mutation \<Rightarrow> replica \<Rightarrow> replica"
  cancel_background_work :: "replication_app_base \<Rightarrow> replication_app_base"
  cleanup_preparing_mutations :: "replica \<Rightarrow> replica"
  primary_states_is_cleaned :: "replica \<Rightarrow> bool"
  secondary_states_is_cleaned :: "replica \<Rightarrow> bool"
  potential_secondary_states_is_cleaned :: "replica \<Rightarrow> bool"
  split_states_is_cleaned :: "replica \<Rightarrow> bool"
  secondary_states_cleanup :: "replica \<Rightarrow> bool \<times> replica"
  potential_secondary_states_cleanup :: "replica \<Rightarrow> bool \<times> replica"
  split_states_cleanup :: "replica \<Rightarrow> bool \<times> replica"
  update_replica_dir :: "replica_disk_migrator \<Rightarrow> replica_disk_migrator"

text \<open>Sequencing of steps that may abort.\<close>

fun bind_fatal :: "fatal + 'a \<Rightarrow> ('a \<Rightarrow> fatal + 'b) \<Rightarrow> fatal + 'b" where
  "bind_fatal (Inl f) k = Inl f"
| "bind_fatal (Inr x) k = k x"

section \<open>Accessors\<close>

definition max_prepared_decree :: "replica \<Rightarrow> decree" where
  "max_prepared_decree r = pl_max_decree (prepare_lst r)"

definition last_committed_decree :: "replica \<Rightarrow> decree" where
  "last_committed_decree r = pl_last_committed_decree (prepare_lst r)"

definition last_durable_decree :: "replica \<Rightarrow> fatal + decree" where
  "last_durable_decree r =
     (case app r of None \<Rightarrow> Inl NullPointerDereference
      | Some a \<Rightarrow> Inr (app_last_durable_decree a))"

definition last_flushed_decree :: "replica \<Rightarrow> fatal + decree" where
  "last_flushed_decree r =
     (case app r of None \<Rightarrow> Inl NullPointerDereference
      | Some a \<Rightarrow> Inr (app_last_flushed_decree a))"

section \<open>last\_prepared\_decree\<close>

text \<open>
  The \<^verbatim>\<open>while (true)\<close> loop of \<^verbatim>\<open>replica::last_prepared_decree\<close>, with its two
  variables \<open>start\<close> and \<open>lastBallot\<close>. Each round that continues has found the slot
  \<open>start + 1\<close> in the list, so the number of entries above \<open>start\<close> decreases.
\<close>

function last_prepared_walk :: "prepare_list \<Rightarrow> decree \<Rightarrow> ballot \<Rightarrow> decree" where
  "last_prepared_walk pl start lastBallot =
     (case get_mutation_by_decree pl (start + 1) of
        None \<Rightarrow> start
      | Some mu \<Rightarrow>
          if ballot mu < lastBallot \<or> \<not> is_logged mu then start
          else last_prepared_walk pl (start + 1) (ballot mu))"
  by pat_completeness auto
termination
proof (relation "measure (\<lambda>(pl, start, b). length (filter (\<lambda>e. start < fst e) (pl_mutations pl)))",
    goal_cases)
  case 1
  show ?case by simp
next
  case (2 pl start lastBallot mu)
  let ?xs = "filter (\<lambda>e. start < fst e) (pl_mutations pl)"
  from 2(1) have "(start + 1, mu) \<in> set (pl_mutations pl)"
    by (simp add: get_mutation_by_decree_def map_of_SomeD)
  then have mem: "(start + 1, mu) \<in> set ?xs" by simp
  have "length (filter (\<lambda>e. start + 1 < fst e) ?xs) < length ?xs"
    by (rule length_filter_less [OF mem]) simp
  moreover have "filter (\<lambda>e. start + 1 < fst e) ?xs
      = filter (\<lambda>e. start + 1 < fst e) (pl_mutations pl)"
    by (simp add: conj_commute cong: filter_cong) (rule filter_cong, auto)
  ultimately show ?case by simp
qed

definition last_prepared_decree :: "replica \<Rightarrow> decree" where
  "last_prepared_decree r = last_prepared_walk (prepare_lst r) (last_committed_decree r) 0"

text \<open>
  The spec's description of the horizon (section 4.7), written independently of the
  loop: slot \<open>k\<close> above \<open>lc\<close> is acceptable when it is populated, logged, and its
  ballot is not below the ballot of slot \<open>k - 1\<close> (not below the bound \<open>lb\<close> for the
  first slot \<open>lc + 1\<close>); \<open>d\<close> is reachable when every slot of \<open>(lc, d]\<close> is
  acceptable.
\<close>

definition slot_acceptable :: "prepare_list \<Rightarrow> decree \<Rightarrow> ballot \<Rightarrow> decree \<Rightarrow> bool" where
  "slot_acceptable pl lc lb k =
     (case get_mutation_by_decree pl k of
        None \<Rightarrow> False
      | Some mu \<Rightarrow>
          is_logged mu \<and>
          (if k = lc + 1 then lb \<le> ballot mu
           else (case get_mutation_by_decree pl (k - 1) of
                   None \<Rightarrow> False
                 | Some prev \<Rightarrow> ballot prev \<le> ballot mu)))"

definition prepared_upto :: "prepare_list \<Rightarrow> decree \<Rightarrow> ballot \<Rightarrow> decree \<Rightarrow> bool" where
  "prepared_upto pl lc lb d = (lc \<le> d \<and> (\<forall>k \<in> {lc + 1 .. d}. slot_acceptable pl lc lb k))"

section \<open>on\_client\_read\<close>

definition response_client_read :: "replica \<Rightarrow> message_ex \<Rightarrow> error_code \<Rightarrow> call" where
  "response_client_read r request err = Response_client True request (status r) err"

text \<open>The tail of \<^verbatim>\<open>on_client_read\<close>, from the assertion on \<^verbatim>\<open>_app\<close>: the call
  into the storage engine and the latency sample.\<close>

definition serve_read :: "collaborators \<Rightarrow> replica \<Rightarrow> message_ex \<Rightarrow> fatal + (replica \<times> call list)" where
  "serve_read c r request =
     (case app r of
        None \<Rightarrow> Inl AssertAppNotNull
      | Some a \<Rightarrow>
          Inr (r\<lparr>app := Some (on_request c request a)\<rparr>,
               App_on_request request #
               (if counters_table_level_latency r (rpc_code request)
                then [Latency_set (rpc_code request)] else [])))"

definition on_client_read ::
  "collaborators \<Rightarrow> replica \<Rightarrow> message_ex \<Rightarrow> bool \<Rightarrow> fatal + (replica \<times> call list)" where
  "on_client_read c r request ignore_throttling =
     (if \<not> allowed c request then Inr (r, [response_client_read r request ERR_ACL_DENY])
      else
       (case check_request_if_splitting c request r of
          Some rejected \<Rightarrow> Inr rejected
        | None \<Rightarrow>
            if status r = PS_INACTIVE \<or> status r = PS_POTENTIAL_SECONDARY
            then Inr (r, [response_client_read r request ERR_INVALID_STATE])
            else
             (case (if ignore_throttling then (False, r) else throttle_read_request c request r) of
                (throttled, r1) \<Rightarrow>
                  if throttled then Inr (r1, [])
                  else if \<not> is_backup_request request then
                    (if status r1 \<noteq> PS_PRIMARY
                     then Inr (r1, [response_client_read r1 request ERR_INVALID_STATE])
                     else if last_committed_decree r1 < last_prepare_decree_on_new_primary r1
                     then Inr (r1, [response_client_read r1 request ERR_INVALID_STATE])
                     else serve_read c r1 request)
                  else
                    serve_read c
                      (r1\<lparr>counter_backup_request_qps := counter_backup_request_qps r1 + 1\<rparr>)
                      request)))"

section \<open>The commit pipeline\<close>

definition check_state_completeness :: "replica \<Rightarrow> fatal + unit" where
  "check_state_completeness r =
     (if \<not> (max_prepared_decree r \<ge> last_committed_decree r)
      then Inl AssertMaxPreparedGeCommitted
      else bind_fatal (last_durable_decree r) (\<lambda>durable.
        if \<not> (last_committed_decree r \<ge> durable)
        then Inl AssertCommittedGeDurable
        else Inr ()))"

text \<open>\<^verbatim>\<open>err = _app->apply_mutation(mu)\<close>.\<close>

definition app_apply_mutation ::
  "collaborators \<Rightarrow> replica \<Rightarrow> mutation \<Rightarrow> fatal + (error_code \<times> replica \<times> call list)" where
  "app_apply_mutation c r mu =
     (case app r of
        None \<Rightarrow> Inl NullPointerDereference
      | Some a \<Rightarrow>
          (case apply_mutation c mu a of
             (err, a') \<Rightarrow> Inr (err, r\<lparr>app := Some a'\<rparr>, [App_apply_mutation mu])))"

text \<open>\<^verbatim>\<open>_app->last_committed_decree() + 1 == d\<close>.\<close>

definition app_commit_is_next :: "replica \<Rightarrow> decree \<Rightarrow> fatal + bool" where
  "app_commit_is_next r d =
     (case app r of
        None \<Rightarrow> Inl NullPointerDereference
      | Some a \<Rightarrow> Inr (app_last_committed_decree a + 1 = d))"

text \<open>\<^verbatim>\<open>static_cast<int>\<close> of a 64-bit value: the low 32 bits, read as signed.\<close>

definition static_cast_int :: "int \<Rightarrow> int" where
  "static_cast_int x = (x + 2 ^ 31) mod 2 ^ 32 - 2 ^ 31"

text \<open>The \<^verbatim>\<open>switch (status())\<close> of \<^verbatim>\<open>execute_mutation\<close>: the error code it leaves
  in \<open>err\<close>, the replica and the calls made.\<close>

definition execute_mutation_switch ::
  "collaborators \<Rightarrow> replica \<Rightarrow> mutation \<Rightarrow> fatal + (error_code \<times> replica \<times> call list)" where
  "execute_mutation_switch c r mu =
     (let d = decree mu in
      case status r of
        PS_INACTIVE \<Rightarrow>
          bind_fatal (app_commit_is_next r d) (\<lambda>next.
            if next then app_apply_mutation c r mu else Inr (ERR_OK, r, []))
      | PS_PRIMARY \<Rightarrow>
          bind_fatal (check_state_completeness r) (\<lambda>_.
          bind_fatal (app_commit_is_next r d) (\<lambda>next.
            if \<not> next then Inl AssertAppCommitContiguous else app_apply_mutation c r mu))
      | PS_SECONDARY \<Rightarrow>
          if \<not> checkpoint_is_running r then
            bind_fatal (check_state_completeness r) (\<lambda>_.
            bind_fatal (app_commit_is_next r d) (\<lambda>next.
              if \<not> next then Inl AssertAppCommitContiguous else app_apply_mutation c r mu))
          else if private_log r = None then Inl AssertPrivateLogNotNull
          else Inr (ERR_OK, r, [])
      | PS_POTENTIAL_SECONDARY \<Rightarrow>
          if learning_status r = LearningSucceeded \<or>
             learning_status r = LearningWithPrepareTransient then
            bind_fatal (app_commit_is_next r d) (\<lambda>next.
              if \<not> next then Inl AssertAppCommitContiguous else app_apply_mutation c r mu)
          else if private_log r = None then Inl AssertPrivateLogNotNull
          else Inr (ERR_OK, r, [])
      | PS_PARTITION_SPLIT \<Rightarrow>
          if is_caught_up r then
            bind_fatal (app_commit_is_next r d) (\<lambda>next.
              if \<not> next then Inl AssertAppCommitContiguous else app_apply_mutation c r mu)
          else Inr (ERR_OK, r, [])
      | PS_ERROR \<Rightarrow> Inr (ERR_OK, r, [])
      | PS_INVALID \<Rightarrow> Inl AssertInvalidPartitionStatus)"

text \<open>What follows the switch: the failure handler, the next prepare on a primary, and
  the latency samples of the updates on a primary.\<close>

definition execute_mutation_finish ::
  "collaborators \<Rightarrow> mutation \<Rightarrow> error_code \<times> replica \<times> call list \<Rightarrow> replica \<times> call list" where
  "execute_mutation_finish c mu after_switch =
     (case after_switch of (err, r1, calls1) \<Rightarrow>
      (case (if err \<noteq> ERR_OK
             then (handle_local_failure c err r1, calls1 @ [Handle_local_failure err])
             else (r1, calls1)) of
         (r2, calls2) \<Rightarrow>
      (case (if status r2 = PS_PRIMARY then
               (case check_possible_work c
                       (static_cast_int (pl_max_decree (prepare_lst r2) - decree mu)) r2 of
                  (Some next, r') \<Rightarrow> (init_prepare c next r', calls2 @ [Init_prepare next])
                | (None, r') \<Rightarrow> (r', calls2))
             else (r2, calls2)) of
         (r3, calls3) \<Rightarrow>
           if PS_PRIMARY = status r3 then
             (r3, calls3 @ map (\<lambda>u. Latency_set (code u))
                    (filter (\<lambda>u. counters_table_level_latency r3 (code u)) (updates mu)))
           else (r3, calls3))))"

definition execute_mutation ::
  "collaborators \<Rightarrow> replica \<Rightarrow> mutation \<Rightarrow> fatal + (replica \<times> call list)" where
  "execute_mutation c r mu =
     bind_fatal (execute_mutation_switch c r mu) (\<lambda>after_switch.
       Inr (execute_mutation_finish c mu after_switch))"

section \<open>close\<close>

text \<open>The condition of the assertion at the entry of \<^verbatim>\<open>close\<close>; \<^verbatim>\<open>||\<close> evaluates
  the migrator's status only when the status is neither ERROR nor INACTIVE.\<close>

definition close_entry_condition :: "replica \<Rightarrow> fatal + bool" where
  "close_entry_condition r =
     (if status r = PS_ERROR \<or> status r = PS_INACTIVE then Inr True
      else (case disk_migrator r of
              None \<Rightarrow> Inl NullPointerDereference
            | Some m \<Rightarrow>
                Inr (disk_migration_status_value (migration_status m)
                       \<ge> disk_migration_status_value MOVED)))"

text \<open>The clean-up of the role contexts: asserted clean on an INACTIVE replica, cleaned
  here otherwise.\<close>

definition close_contexts :: "collaborators \<Rightarrow> replica \<Rightarrow> fatal + replica" where
  "close_contexts c r =
     (if PS_INACTIVE = status r then
        (if \<not> secondary_states_is_cleaned c r then Inl AssertSecondaryContextNotCleared
         else if \<not> potential_secondary_states_is_cleaned c r
         then Inl AssertPotentialSecondaryContextNotCleared
         else if \<not> split_states_is_cleaned c r then Inl AssertSplitContextNotCleared
         else Inr r)
      else
        (case secondary_states_cleanup c r of (ok1, r1) \<Rightarrow>
           if \<not> ok1 then Inl AssertSecondaryContextNotCleared
           else (case potential_secondary_states_cleanup c r1 of (ok2, r2) \<Rightarrow>
             if \<not> ok2 then Inl AssertPotentialSecondaryContextNotCleared
             else (case split_states_cleanup c r2 of (ok3, r3) \<Rightarrow>
               if \<not> ok3 then Inl AssertSplitContextNotCleared
               else Inr r3))))"

text \<open>The last steps on the disk migrator: MOVED becomes CLOSED through
  \<^verbatim>\<open>update_replica_dir\<close>, a CLOSED migrator is released.\<close>

definition close_disk_migrator :: "collaborators \<Rightarrow> replica \<Rightarrow> fatal + replica" where
  "close_disk_migrator c r =
     (case disk_migrator r of
        None \<Rightarrow> Inl NullPointerDereference
      | Some m \<Rightarrow>
          if migration_status m = MOVED
          then Inr (r\<lparr>disk_migrator := Some (update_replica_dir c m)\<rparr>)
          else if migration_status m = CLOSED
          then Inr (r\<lparr>disk_migrator := None\<rparr>)
          else Inr r)"

definition close :: "collaborators \<Rightarrow> replica \<Rightarrow> fatal + (replica \<times> call list)" where
  "close c r =
     bind_fatal (close_entry_condition r) (\<lambda>entry_ok.
       if \<not> entry_ok then Inl AssertCloseInvalidState
       else
        (let calls1 = (if checkpoint_timer r then [Checkpoint_timer_cancel] else []);
             r1 = r\<lparr>checkpoint_timer := False\<rparr>;
             calls2 = calls1 @ (if app r1 \<noteq> None then [App_cancel_background_work] else []);
             r2 = r1\<lparr>app := map_option (cancel_background_work c) (app r1)\<rparr>;
             calls3 = calls2 @ [Cancel_outstanding_tasks];
             r3 = cleanup_preparing_mutations c r2
         in if \<not> primary_states_is_cleaned c r3 then Inl AssertPrimaryContextNotCleared
            else
              bind_fatal (close_contexts c r3) (\<lambda>r4.
                (let calls4 = calls3 @ (if private_log r4 \<noteq> None then [Private_log_close] else []);
                     r5 = r4\<lparr>private_log := None\<rparr>;
                     calls5 = calls4 @ (if app r5 \<noteq> None then [App_close] else []);
                     r6 = r5\<lparr>app := None\<rparr>
                 in bind_fatal (close_disk_migrator c r6) (\<lambda>r7.
                      Inr (r7, calls5 @ [Counter_private_log_size_clear, Reset_duplication_mgr,
                                         Reset_backup_mgr, Reset_bulk_loader, Reset_split_mgr]))))))"

section \<open>Manual compaction status\<close>

text \<open>\<^verbatim>\<open>std::string::find\<close> from position 0: the index of the first occurrence,
  \<open>None\<close> for \<^verbatim>\<open>npos\<close>.\<close>

fun string_find :: "string \<Rightarrow> string \<Rightarrow> nat option" where
  "string_find [] sub = (if sub = [] then Some 0 else None)"
| "string_find (ch # rest) sub =
     (if prefix sub (ch # rest) then Some 0 else map_option Suc (string_find rest sub))"

definition query_manual_compact_state :: "replica \<Rightarrow> fatal + string" where
  "query_manual_compact_state r =
     (case app r of None \<Rightarrow> Inl AssertAppNotNull | Some a \<Rightarrow> Inr (compact_state a))"

definition get_manual_compact_status :: "replica \<Rightarrow> fatal + manual_compaction_status" where
  "get_manual_compact_status r =
     bind_fatal (query_manual_compact_state r) (\<lambda>compact_state.
       if string_find compact_state ''recent start at'' \<noteq> None then Inr kRunning
       else if string_find compact_state ''recent enqueue at'' \<noteq> None then Inr kQueuing
       else if string_find compact_state ''last used'' \<noteq> None then Inr kFinished
       else Inr kIdle)"

section \<open>Restore on the meta server\<close>

text \<open>\<^verbatim>\<open>std::to_string\<close> on a signed integer: the decimal digits, with a minus sign
  for a negative value.\<close>

definition digit_char :: "nat \<Rightarrow> char" where
  "digit_char n = char_of (48 + n)"

function string_of_nat :: "nat \<Rightarrow> string" where
  "string_of_nat n =
     (if n < 10 then [digit_char n] else string_of_nat (n div 10) @ [digit_char (n mod 10)])"
  by pat_completeness auto
termination
  by (relation "measure (\<lambda>n. n)") auto

definition to_string :: "int \<Rightarrow> string" where
  "to_string i = (if i < 0 then CHR ''-'' # string_of_nat (nat (- i)) else string_of_nat (nat i))"

text \<open>The keys of \<^verbatim>\<open>backup_restore_constant\<close>. Their literal values are in a header
  that is not among the sources; the spec names them, and the model uses the names.\<close>

definition BLOCK_SERVICE_PROVIDER :: string where
  "BLOCK_SERVICE_PROVIDER = ''BLOCK_SERVICE_PROVIDER''"

definition CLUSTER_NAME :: string where
  "CLUSTER_NAME = ''CLUSTER_NAME''"

definition APP_NAME :: string where
  "APP_NAME = ''APP_NAME''"

definition APP_ID :: string where
  "APP_ID = ''APP_ID''"

definition BACKUP_ID :: string where
  "BACKUP_ID = ''BACKUP_ID''"

definition RESTORE_PATH :: string where
  "RESTORE_PATH = ''RESTORE_PATH''"

datatype app_status = AS_INVALID | AS_AVAILABLE | AS_CREATING

record configuration_restore_request =
  app_id :: int
  app_name :: string
  new_app_name :: string
  time_stamp :: int
  cluster_name :: string
  backup_provider_name :: string
  restore_path :: "string option"

record app_state =
  as_status :: app_status
  as_app_type :: string
  as_app_name :: string
  as_app_id :: int
  as_partition_count :: int
  as_envs :: "string \<rightharpoonup> string"

record server_state =
  all_apps :: "app_state list"
  app_id_allocator :: int

text \<open>
  Modelled from the spec: \<^verbatim>\<open>server_state::next_app_id\<close> is not among the sources. The
  spec (section 6) calls it the meta's monotone allocator of app ids; the model reads
  the allocator's next value from the server state.
\<close>

definition next_app_id :: "server_state \<Rightarrow> int" where
  "next_app_id ss = app_id_allocator ss"

text \<open>
  Modelled from the spec: \<^verbatim>\<open>server_state::restore_app_info\<close> is not among the sources
  (only its test is). Following section 6 and the restore-seeding law of section 8: the
  reply is \<^verbatim>\<open>ERR_OK\<close> with a new app made from the snapshot, named
  \<open>new_app_name\<close>, in status CREATING, with a fresh id from the allocator, and whose env
  map is seeded with the provider, the cluster, the old app's name and id, the backup id
  (the request's time stamp) and, when the request carries one, the restore path.
\<close>

definition restore_app_info ::
  "server_state \<Rightarrow> configuration_restore_request \<Rightarrow> app_state \<Rightarrow> error_code \<times> app_state" where
  "restore_app_info ss req snapshot =
     (let seeded = [BLOCK_SERVICE_PROVIDER \<mapsto> backup_provider_name req,
                    CLUSTER_NAME \<mapsto> cluster_name req,
                    APP_NAME \<mapsto> app_name req,
                    APP_ID \<mapsto> to_string (app_id req),
                    BACKUP_ID \<mapsto> to_string (time_stamp req)];
          envs = (case restore_path req of
                    None \<Rightarrow> seeded
                  | Some path \<Rightarrow> seeded(RESTORE_PATH \<mapsto> path))
      in (ERR_OK,
          snapshot\<lparr>as_status := AS_CREATING,
                   as_app_name := new_app_name req,
                   as_app_id := next_app_id ss,
                   as_envs := envs\<rparr>))"

section \<open>Example states\<close>

text \<open>A primary at committed decree 5 whose prepare list holds the logged slots 6 to 9
  with ballots 1, 2, 1, 3: the ballot falls at slot 8.\<close>

definition logged_mutation :: "ballot \<Rightarrow> decree \<Rightarrow> mutation" where
  "logged_mutation b d =
     \<lparr>ballot = b, decree = d, log_offset = 0, updates = [], client_requests = [],
      is_logged = True\<rparr>"

definition example_prepare_list :: prepare_list where
  "example_prepare_list =
     \<lparr>pl_last_committed_decree = 5, pl_max_decree = 9,
      pl_mutations = [(6, logged_mutation 1 6), (7, logged_mutation 2 7),
                      (8, logged_mutation 1 8), (9, logged_mutation 3 9)]\<rparr>"

definition example_app :: replication_app_base where
  "example_app =
     \<lparr>app_last_committed_decree = 5, app_last_flushed_decree = 4,
      app_last_durable_decree = 3, compact_state = ''last finish at [-]'',
      data_version = 1\<rparr>"

definition example_replica :: replica where
  "example_replica =
     \<lparr>status = PS_PRIMARY, app = Some example_app, prepare_lst = example_prepare_list,
      private_log = Some Mutation_log, last_prepare_decree_on_new_primary = 5,
      checkpoint_is_running = False, learning_status = LearningNotStarted,
      is_caught_up = False, disk_migrator = Some \<lparr>migration_status = IDLE\<rparr>,
      checkpoint_timer = True, counter_backup_request_qps = 0,
      counters_table_level_latency = (\<lambda>_. False)\<rparr>"


section \<open>Properties of the walk\<close>

lemma last_prepared_walk_ge: "start \<le> last_prepared_walk pl start b"
proof (induction pl start b rule: last_prepared_walk.induct)
  case (1 pl start lastBallot)
  show ?case
  proof (cases "get_mutation_by_decree pl (start + 1)")
    case None
    then have "last_prepared_walk pl start lastBallot = start"
      by (subst last_prepared_walk.simps) simp
    then show ?thesis by simp
  next
    case (Some mu)
    show ?thesis
    proof (cases "ballot mu < lastBallot \<or> \<not> is_logged mu")
      case True
      with Some have "last_prepared_walk pl start lastBallot = start"
        by (subst last_prepared_walk.simps) simp
      then show ?thesis by simp
    next
      case False
      with Some have step: "last_prepared_walk pl start lastBallot
          = last_prepared_walk pl (start + 1) (ballot mu)"
        by (subst last_prepared_walk.simps) simp
      have "start + 1 \<le> last_prepared_walk pl (start + 1) (ballot mu)"
        by (rule "1.IH" [OF Some False])
      with step show ?thesis by simp
    qed
  qed
qed

lemma slot_acceptable_shift:
  assumes "get_mutation_by_decree pl (start + 1) = Some mu" and "start + 1 < k"
  shows "slot_acceptable pl (start + 1) (ballot mu) k = slot_acceptable pl start b k"
proof (cases "k = start + 1 + 1")
  case True
  then have km: "k - 1 = start + 1" by simp
  have prev: "get_mutation_by_decree pl (k - 1) = Some mu"
    unfolding km by (rule assms(1))
  from assms(2) have ne: "k \<noteq> start + 1" by simp
  show ?thesis
    unfolding slot_acceptable_def
    by (simp only: True [symmetric] ne prev if_True if_False option.case simp_thms if_cancel)
next
  case False
  from assms(2) have ne: "k \<noteq> start + 1" by simp
  show ?thesis
    unfolding slot_acceptable_def
    by (simp only: False ne if_False)
qed

lemma last_prepared_walk_acceptable:
  "start < k \<Longrightarrow> k \<le> last_prepared_walk pl start b \<Longrightarrow> slot_acceptable pl start b k"
proof (induction pl start b arbitrary: k rule: last_prepared_walk.induct)
  case (1 pl start lastBallot)
  show ?case
  proof (cases "get_mutation_by_decree pl (start + 1)")
    case None
    then have "last_prepared_walk pl start lastBallot = start"
      by (subst last_prepared_walk.simps) simp
    with "1.prems" show ?thesis by simp
  next
    case (Some mu)
    show ?thesis
    proof (cases "ballot mu < lastBallot \<or> \<not> is_logged mu")
      case True
      with Some have "last_prepared_walk pl start lastBallot = start"
        by (subst last_prepared_walk.simps) simp
      with "1.prems" show ?thesis by simp
    next
      case False
      with Some have step: "last_prepared_walk pl start lastBallot
          = last_prepared_walk pl (start + 1) (ballot mu)"
        by (subst last_prepared_walk.simps) simp
      show ?thesis
      proof (cases "k = start + 1")
        case True
        with Some False show ?thesis by (simp add: slot_acceptable_def)
      next
        case k: False
        with "1.prems" step have lt: "start + 1 < k"
          and le: "k \<le> last_prepared_walk pl (start + 1) (ballot mu)"
          by simp_all
        have "slot_acceptable pl (start + 1) (ballot mu) k"
          by (rule "1.IH" [OF Some False lt le])
        with slot_acceptable_shift [OF Some lt, of lastBallot] show ?thesis
          by blast
      qed
    qed
  qed
qed

lemma last_prepared_walk_stops: "\<not> slot_acceptable pl start b (last_prepared_walk pl start b + 1)"
proof (induction pl start b rule: last_prepared_walk.induct)
  case (1 pl start lastBallot)
  show ?case
  proof (cases "get_mutation_by_decree pl (start + 1)")
    case None
    then have "last_prepared_walk pl start lastBallot = start"
      by (subst last_prepared_walk.simps) simp
    with None show ?thesis by (simp add: slot_acceptable_def)
  next
    case (Some mu)
    show ?thesis
    proof (cases "ballot mu < lastBallot \<or> \<not> is_logged mu")
      case True
      with Some have "last_prepared_walk pl start lastBallot = start"
        by (subst last_prepared_walk.simps) simp
      with Some True show ?thesis by (auto simp add: slot_acceptable_def)
    next
      case False
      with Some have step: "last_prepared_walk pl start lastBallot
          = last_prepared_walk pl (start + 1) (ballot mu)"
        by (subst last_prepared_walk.simps) simp
      have "start + 1 \<le> last_prepared_walk pl (start + 1) (ballot mu)"
        by (rule last_prepared_walk_ge)
      then have "start + 1 < last_prepared_walk pl (start + 1) (ballot mu) + 1" by simp
      from slot_acceptable_shift [OF Some this, of lastBallot] "1.IH" [OF Some False]
      have "\<not> slot_acceptable pl start lastBallot
          (last_prepared_walk pl (start + 1) (ballot mu) + 1)"
        by blast
      then show ?thesis
        unfolding step .
    qed
  qed
qed


section \<open>Claims\<close>

text \<open>
  C6. \<^verbatim>\<open>last_prepared_decree()\<close> returns the largest decree \<open>d\<close> at or above
  \<^verbatim>\<open>last_committed_decree()\<close> such that every slot of the prepare list in
  \<open>(last_committed_decree, d]\<close> is populated, logged, and carries a ballot that does not
  fall along increasing decrees, starting from the lower bound 0: the returned decree is
  reachable in that sense, every reachable decree is at most the returned one, and the
  slot after the returned one is missing, unlogged or has a lower ballot.
\<close>

theorem last_prepared_decree_is_horizon:
  "prepared_upto (prepare_lst r) (last_committed_decree r) 0 (last_prepared_decree r) \<and>
   (\<forall>d. prepared_upto (prepare_lst r) (last_committed_decree r) 0 d \<longrightarrow> d \<le> last_prepared_decree r) \<and>
   \<not> slot_acceptable (prepare_lst r) (last_committed_decree r) 0 (last_prepared_decree r + 1)"
proof (intro conjI allI impI)
  show "prepared_upto (prepare_lst r) (last_committed_decree r) 0 (last_prepared_decree r)"
    unfolding prepared_upto_def last_prepared_decree_def
    using last_prepared_walk_ge last_prepared_walk_acceptable by simp
next
  show "\<not> slot_acceptable (prepare_lst r) (last_committed_decree r) 0 (last_prepared_decree r + 1)"
    unfolding last_prepared_decree_def by (rule last_prepared_walk_stops)
next
  fix d
  assume up: "prepared_upto (prepare_lst r) (last_committed_decree r) 0 d"
  show "d \<le> last_prepared_decree r"
  proof (rule ccontr)
    assume "\<not> d \<le> last_prepared_decree r"
    then have "last_prepared_decree r + 1 \<le> d" by simp
    moreover have "last_committed_decree r \<le> last_prepared_decree r"
      unfolding last_prepared_decree_def by (rule last_prepared_walk_ge)
    ultimately have "last_prepared_decree r + 1 \<in> {last_committed_decree r + 1 .. d}" by simp
    with up have "slot_acceptable (prepare_lst r) (last_committed_decree r) 0 (last_prepared_decree r + 1)"
      unfolding prepared_upto_def by blast
    then show False
      unfolding last_prepared_decree_def using last_prepared_walk_stops by blast
  qed
qed


theorem last_prepared_decree_is_horizon_witness:
  "prepared_upto (prepare_lst example_replica) (last_committed_decree example_replica) 0 7 \<and>
   7 \<le> last_prepared_decree example_replica \<and>
   \<not> slot_acceptable (prepare_lst example_replica) (last_committed_decree example_replica) 0
       (last_prepared_decree example_replica + 1)"
proof -
  have slots: "{5 + 1 .. 7} = {6, 7 :: int}" by auto
  have up: "prepared_upto (prepare_lst example_replica) (last_committed_decree example_replica) 0 7"
    by (simp add: prepared_upto_def slot_acceptable_def last_committed_decree_def
        example_replica_def example_prepare_list_def logged_mutation_def
        get_mutation_by_decree_def slots)
  from last_prepared_decree_is_horizon [of example_replica] up show ?thesis by blast
qed


text \<open>
  C10. \<^verbatim>\<open>last_prepared_decree()\<close> is never below \<^verbatim>\<open>last_committed_decree()\<close>: the
  walk starts there and only increments.
\<close>

theorem last_prepared_decree_ge_last_committed:
  "last_committed_decree r \<le> last_prepared_decree r"
  unfolding last_prepared_decree_def by (rule last_prepared_walk_ge)

theorem last_prepared_decree_ge_last_committed_witness:
  "last_committed_decree example_replica = 5 \<and> 5 \<le> last_prepared_decree example_replica"
proof -
  have "last_committed_decree example_replica = 5"
    by (simp add: last_committed_decree_def example_replica_def example_prepare_list_def)
  with last_prepared_decree_ge_last_committed [of example_replica] show ?thesis by simp
qed

end
